theory Spec2Isabelle
  imports Main "HOL-Library.Word"
begin

section \<open>Data model of the onion-message core\<close>

text \<open>
  \<^verbatim>\<open>route.Vertex\<close> is a \<^verbatim>\<open>[33]byte\<close> array compared byte-wise. It is
  modelled as a list of bytes; the fixed length is stated where it matters
  (the dispatcher copies the vertex into a 33-byte array).
\<close>

type_synonym bytes = "8 word list"
type_synonym Vertex = bytes

text \<open>\<^verbatim>\<open>vertexFromByte\<close> of the test file: byte \<open>b\<close> in position 0, zeros elsewhere.\<close>

definition vertexFromByte :: "8 word \<Rightarrow> Vertex" where
  "vertexFromByte b = b # replicate 32 0"

text \<open>The zero value of \<^verbatim>\<open>route.Vertex\<close>, which Go returns when a map has no entry.\<close>

definition zeroVertex :: Vertex where
  "zeroVertex = replicate 33 0"

text \<open>
  Modelled from the spec: \<^verbatim>\<open>lnwire.FeatureVector\<close> and its \<^verbatim>\<open>HasFeature\<close> are
  not part of the sources at hand. Section 3 of the specification describes a
  feature vector as an immutable set of non-negative bits of which the core
  asks for exactly one, \<^verbatim>\<open>OnionMessagesOptional\<close>, bit 39.
\<close>

type_synonym FeatureVector = "nat set"

definition OnionMessagesOptional :: nat where
  "OnionMessagesOptional = 39"

definition HasFeature :: "FeatureVector \<Rightarrow> nat \<Rightarrow> bool" where
  "HasFeature fv b = (b \<in> fv)"

text \<open>
  Errors are values. The package's own sentinels are constructors; an error made
  outside the package (graph adapter, key parsing, sphinx, TLV encoding) is
  \<open>External\<close> with its message, so that no collaborator can forge the
  unexported sentinel \<open>errBFSDone\<close>. \<^verbatim>\<open>fmt.Errorf\<close> calls are \<open>Errorf\<close> (a plain
  message), \<open>Wrapf\<close> (\<^verbatim>\<open>"msg: %w"\<close>) and \<open>WrapHopf\<close> (\<^verbatim>\<open>"msg %d: %w"\<close> with the
  hop index).
\<close>

datatype error =
    ErrNoPathFound
  | ErrDestinationNoOnionSupport
  | ErrPeerActorNotFound
  | errBFSDone
  | External string
  | Errorf string
  | Wrapf string error
  | WrapHopf string nat error

text \<open>
  \<^verbatim>\<open>graphdb.NodeTraverser\<close> is an interface; the core consumes two methods.
  \<open>FetchNodeFeatures\<close> returns the features of a node or fails.
  \<^verbatim>\<open>ForEachNodeDirectedChannel\<close> calls the visitor once per directed channel of
  the node: \<open>DirectedChannels\<close> lists the \<^verbatim>\<open>OtherNode\<close> of each channel in
  the order of the iteration (multi-edges repeat a vertex), and
  \<open>TraversalErr\<close> is the adapter's own failure, reported when the visitor has
  not stopped the iteration before. The reset callback that \<^verbatim>\<open>FindPath\<close>
  passes does nothing and is left out.
\<close>

record NodeTraverser =
  FetchNodeFeatures :: "Vertex \<Rightarrow> string + FeatureVector"
  DirectedChannels :: "Vertex \<Rightarrow> Vertex list"
  TraversalErr :: "Vertex \<Rightarrow> string option"

record OnionMessagePath =
  Hops :: "Vertex list"

section \<open>The path finder (pathfind.go)\<close>

text \<open>
  The mutable locals of \<^verbatim>\<open>FindPath\<close> that the visitor closure captures:
  the three maps and the frontier under construction.
\<close>

record bfs =
  parent :: "Vertex \<rightharpoonup> Vertex"
  visited :: "Vertex set"
  featureCache :: "Vertex \<rightharpoonup> bool"
  nextQueue :: "Vertex list"

text \<open>The closure \<^verbatim>\<open>supportsOnionMessages\<close>: a cached feature lookup.\<close>

definition supportsOnionMessages :: "NodeTraverser \<Rightarrow> Vertex \<Rightarrow> bfs \<Rightarrow> bool \<times> bfs" where
  "supportsOnionMessages graph node st =
     (case featureCache st node of
        Some cached \<Rightarrow> (cached, st)
      | None \<Rightarrow>
          (case FetchNodeFeatures graph node of
             Inl err \<Rightarrow> (False, st\<lparr>featureCache := (featureCache st)(node \<mapsto> False)\<rparr>)
           | Inr features \<Rightarrow>
               (let supports = HasFeature features OnionMessagesOptional
                in (supports, st\<lparr>featureCache := (featureCache st)(node \<mapsto> supports)\<rparr>))))"

text \<open>
  The visitor passed to \<^verbatim>\<open>ForEachNodeDirectedChannel\<close>; \<open>neighbor\<close> is
  \<^verbatim>\<open>channel.OtherNode\<close>. It returns the visitor's error (\<open>None\<close> is \<^verbatim>\<open>nil\<close>).
\<close>

definition visit :: "NodeTraverser \<Rightarrow> Vertex \<Rightarrow> Vertex \<Rightarrow> Vertex \<Rightarrow> bfs \<Rightarrow> error option \<times> bfs" where
  "visit graph destination current neighbor st =
     (if neighbor \<in> visited st then (None, st)
      else
        (case supportsOnionMessages graph neighbor st of
           (False, st1) \<Rightarrow> (None, st1)
         | (True, st1) \<Rightarrow>
             (let st2 = st1\<lparr>visited := insert neighbor (visited st1),
                            parent := (parent st1)(neighbor \<mapsto> current)\<rparr>
              in if neighbor = destination then (Some errBFSDone, st2)
                 else (None, st2\<lparr>nextQueue := nextQueue st2 @ [neighbor]\<rparr>))))"

text \<open>
  The contract of \<^verbatim>\<open>ForEachNodeDirectedChannel\<close>, as the mock adapter of the
  test file implements it: the visitor runs on each channel in turn and its
  first non-nil error ends the iteration and is returned as it is.
\<close>

fun forEachChannel :: "(Vertex \<Rightarrow> 's \<Rightarrow> error option \<times> 's) \<Rightarrow> Vertex list \<Rightarrow> 's \<Rightarrow> error option \<times> 's" where
  "forEachChannel cb [] st = (None, st)"
| "forEachChannel cb (neighbor # rest) st =
     (case cb neighbor st of
        (Some err, st1) \<Rightarrow> (Some err, st1)
      | (None, st1) \<Rightarrow> forEachChannel cb rest st1)"

definition ForEachNodeDirectedChannel ::
  "NodeTraverser \<Rightarrow> Vertex \<Rightarrow> (Vertex \<Rightarrow> 's \<Rightarrow> error option \<times> 's) \<Rightarrow> 's \<Rightarrow> error option \<times> 's" where
  "ForEachNodeDirectedChannel graph nodePub cb st =
     (case forEachChannel cb (DirectedChannels graph nodePub) st of
        (Some err, st1) \<Rightarrow> (Some err, st1)
      | (None, st1) \<Rightarrow> (map_option External (TraversalErr graph nodePub), st1))"

text \<open>
  The inner loop \<^verbatim>\<open>for _, current := range queue\<close>. It leaves \<^verbatim>\<open>FindPath\<close>
  through one of its two \<^verbatim>\<open>return\<close>s, or falls through to the next level.
  \<open>Found st\<close> is the first \<^verbatim>\<open>return\<close>, taken with the maps of \<open>st\<close>: the path
  is reconstructed from \<open>parent st\<close> by \<open>FindPath\<close> below.
\<close>

datatype level = NextLevel bfs | Found bfs | Failed error

fun expandLevel :: "NodeTraverser \<Rightarrow> Vertex \<Rightarrow> Vertex list \<Rightarrow> bfs \<Rightarrow> level" where
  "expandLevel graph destination [] st = NextLevel st"
| "expandLevel graph destination (current # queue) st =
     (case ForEachNodeDirectedChannel graph current (visit graph destination current) st of
        (Some err, st1) \<Rightarrow> (if err = errBFSDone then Found st1 else Failed err)
      | (None, st1) \<Rightarrow> expandLevel graph destination queue st1)"

text \<open>
  The outer loop \<^verbatim>\<open>for len(queue) > 0\<close>. \<^verbatim>\<open>maxHops\<close> and \<^verbatim>\<open>depth\<close> are Go
  \<^verbatim>\<open>int\<close>s; \<open>depth\<close> never exceeds \<open>maxHops + 1\<close>, and a wrap-around of
  \<^verbatim>\<open>depth++\<close> would need \<open>2^63\<close> non-empty levels, so they are unbounded
  integers here. Both exits of the loop reach \<^verbatim>\<open>return nil, ErrNoPathFound\<close>.
\<close>

function bfsLoop :: "NodeTraverser \<Rightarrow> Vertex \<Rightarrow> int \<Rightarrow> Vertex list \<Rightarrow> int \<Rightarrow> bfs \<Rightarrow> error + bfs" where
  "bfsLoop graph destination maxHops queue depth st =
     (if queue = [] then Inl ErrNoPathFound
      else if depth + 1 > maxHops then Inl ErrNoPathFound
      else
        (case expandLevel graph destination queue (st\<lparr>nextQueue := []\<rparr>) of
           Found st1 \<Rightarrow> Inr st1
         | Failed err \<Rightarrow> Inl err
         | NextLevel st1 \<Rightarrow> bfsLoop graph destination maxHops (nextQueue st1) (depth + 1) st1))"
  by pat_completeness auto
termination
  by (relation "measure (\<lambda>(graph, destination, maxHops, queue, depth, st). nat (maxHops - depth))") auto

declare bfsLoop.simps [simp del]

text \<open>
  \<^verbatim>\<open>reconstructPath\<close>. The first loop follows \<^verbatim>\<open>parent[current]\<close> until it
  meets the source; a missing key reads as the zero vertex, and nothing in the
  loop itself bounds it, so not returning is the value \<open>None\<close>. The second loop
  reverses the slice in place.
\<close>

definition parentOf :: "(Vertex \<rightharpoonup> Vertex) \<Rightarrow> Vertex \<Rightarrow> Vertex" where
  "parentOf p current = (case p current of Some v \<Rightarrow> v | None \<Rightarrow> zeroVertex)"

partial_function (option) walkParents ::
  "(Vertex \<rightharpoonup> Vertex) \<Rightarrow> Vertex \<Rightarrow> Vertex \<Rightarrow> Vertex list \<Rightarrow> Vertex list option" where
  "walkParents p source current path =
     (if current \<noteq> source then walkParents p source (parentOf p current) (path @ [current])
      else Some path)"

definition reconstructPath :: "(Vertex \<rightharpoonup> Vertex) \<Rightarrow> Vertex \<Rightarrow> Vertex \<Rightarrow> OnionMessagePath option" where
  "reconstructPath p source destination =
     map_option (\<lambda>path. \<lparr>Hops = rev path\<rparr>) (walkParents p source destination [])"

definition initialBfs :: "Vertex \<Rightarrow> Vertex \<Rightarrow> bfs" where
  "initialBfs source destination =
     \<lparr>parent = Map.empty, visited = {source},
      featureCache = [destination \<mapsto> True], nextQueue = []\<rparr>"

text \<open>\<^verbatim>\<open>FindPath\<close>. \<open>None\<close>: the call does not return.\<close>

definition FindPath ::
  "NodeTraverser \<Rightarrow> Vertex \<Rightarrow> Vertex \<Rightarrow> int \<Rightarrow> (error + OnionMessagePath) option" where
  "FindPath graph source destination maxHops =
     (case FetchNodeFeatures graph destination of
        Inl err \<Rightarrow> Some (Inl (External err))
      | Inr destFeatures \<Rightarrow>
          if \<not> HasFeature destFeatures OnionMessagesOptional
          then Some (Inl ErrDestinationNoOnionSupport)
          else if source = destination then Some (Inr \<lparr>Hops = []\<rparr>)
          else
            (case bfsLoop graph destination maxHops [source] 0 (initialBfs source destination) of
               Inl err \<Rightarrow> Some (Inl err)
             | Inr st \<Rightarrow> map_option Inr (reconstructPath (parent st) source destination)))"


section \<open>The onion builder and the dispatcher (send.go)\<close>

text \<open>
  Keys. A private key is a 256-bit scalar, a public key a curve point. The
  sphinx structures the core only hands on (\<^verbatim>\<open>sphinx.BlindedPath\<close>,
  \<^verbatim>\<open>sphinx.PaymentPath\<close>, \<^verbatim>\<open>sphinx.OnionPacket\<close>) are the type parameters
  \<open>'bp\<close>, \<open>'pp\<close> and \<open>'pkt\<close>.
\<close>

type_synonym PrivateKey = "256 word"

datatype PublicKey = Point int int

record FinalHopTLV =
  TLVType :: "64 word"
  Value :: bytes

record HopInfo =
  NodePub :: PublicKey
  PlainText :: bytes

record 'bp BlindedPathInfo =
  Path :: 'bp
  SessionKey :: PrivateKey

text \<open>
  Modelled from the spec: \<^verbatim>\<open>record.BlindedRouteData\<close> and its constructor
  \<^verbatim>\<open>NewNonFinalBlindedRouteDataOnionMessage\<close> are not part of the sources at
  hand. Section 4.C: the record of a non-final hop carries \<open>next_node_id\<close> and
  no channel-id or padding, the record of the final hop is empty. The
  constructor takes the next node as either a public key or a short channel
  id, and two optional values that \<^verbatim>\<open>buildOnionMessageForPath\<close> passes as
  \<^verbatim>\<open>nil\<close>.
\<close>

record BlindedRouteData =
  Padding :: "bytes option"
  ShortChannelID :: "64 word option"
  NextNodeID :: "PublicKey option"
  NextBlindingOverride :: "PublicKey option"
  Features :: "FeatureVector option"

definition emptyBlindedRouteData :: BlindedRouteData where
  "emptyBlindedRouteData =
     \<lparr>Padding = None, ShortChannelID = None, NextNodeID = None,
      NextBlindingOverride = None, Features = None\<rparr>"

definition NewNonFinalBlindedRouteDataOnionMessage ::
  "PublicKey + 64 word \<Rightarrow> PublicKey option \<Rightarrow> FeatureVector option \<Rightarrow> BlindedRouteData" where
  "NewNonFinalBlindedRouteDataOnionMessage nextNode blindingOverride fv =
     (case nextNode of
        Inl nextPub \<Rightarrow>
          \<lparr>Padding = None, ShortChannelID = None, NextNodeID = Some nextPub,
           NextBlindingOverride = blindingOverride, Features = fv\<rparr>
      | Inr scid \<Rightarrow>
          \<lparr>Padding = None, ShortChannelID = Some scid, NextNodeID = None,
           NextBlindingOverride = blindingOverride, Features = fv\<rparr>)"

text \<open>
  The library functions \<^verbatim>\<open>buildOnionMessageForPath\<close> calls are parameters:
  \<^verbatim>\<open>btcec.ParsePubKey\<close>, \<^verbatim>\<open>PrivateKey.PubKey\<close>,
  \<^verbatim>\<open>record.EncodeBlindedRouteData\<close>, \<^verbatim>\<open>sphinx.BuildBlindedPath\<close>,
  \<^verbatim>\<open>route.OnionMessageBlindedPathToSphinxPath\<close>, \<^verbatim>\<open>sphinx.NewOnionPacket\<close>
  (its remaining arguments are constants: no associated data, the deterministic
  packet filler, the maximum routing payload size) and \<^verbatim>\<open>OnionPacket.Encode\<close>.
  Each returns its error as a message.
\<close>

record ('bp, 'pp, 'pkt) primitives =
  ParsePubKey :: "bytes \<Rightarrow> string + PublicKey"
  PubKey :: "PrivateKey \<Rightarrow> PublicKey"
  EncodeBlindedRouteData :: "BlindedRouteData \<Rightarrow> string + bytes"
  BuildBlindedPath :: "PrivateKey \<Rightarrow> HopInfo list \<Rightarrow> string + 'bp BlindedPathInfo"
  OnionMessageBlindedPathToSphinxPath ::
    "'bp \<Rightarrow> 'bp option \<Rightarrow> FinalHopTLV list \<Rightarrow> string + 'pp"
  NewOnionPacket :: "'pp \<Rightarrow> PrivateKey \<Rightarrow> string + 'pkt"
  Encode :: "'pkt \<Rightarrow> string + bytes"

text \<open>
  The dispatcher's peers. An actor reference is a name; the receptionist maps
  the 33-byte key of a peer to its actor, if one is registered.
\<close>

type_synonym ActorRef = nat
type_synonym Receptionist = "bytes \<rightharpoonup> ActorRef"

record OnionMessage =
  PathKey :: PublicKey
  OnionBlob :: bytes

record Request =
  msg :: OnionMessage

text \<open>
  What a send changes outside itself: \<^verbatim>\<open>btcec.NewPrivateKey\<close> consumes the
  random source (\<open>keySource\<close> lists the outcome of every draw, \<open>drawn\<close> counts
  the draws made), and \<^verbatim>\<open>actorRef.Tell\<close> puts a request into an actor's
  mailbox (\<open>told\<close> lists the tells in order).
\<close>

record world =
  keySource :: "nat \<Rightarrow> string + PrivateKey"
  drawn :: nat
  told :: "(ActorRef \<times> Request) list"

definition NewPrivateKey :: "world \<Rightarrow> (string + PrivateKey) \<times> world" where
  "NewPrivateKey w = (keySource w (drawn w), w\<lparr>drawn := drawn w + 1\<rparr>)"

definition Tell :: "ActorRef \<Rightarrow> Request \<Rightarrow> world \<Rightarrow> world" where
  "Tell actorRef req w = w\<lparr>told := told w @ [(actorRef, req)]\<rparr>"

definition NewOnionMessage :: "PublicKey \<Rightarrow> bytes \<Rightarrow> OnionMessage" where
  "NewOnionMessage blindingKey onionBlob = \<lparr>PathKey = blindingKey, OnionBlob = onionBlob\<rparr>"

record SendConfig =
  Graph :: NodeTraverser
  OurPubKey :: Vertex
  Receptionist :: Receptionist
  MaxHops :: int

text \<open>
  The loop \<^verbatim>\<open>for i, hop := range hops\<close> of \<^verbatim>\<open>buildOnionMessageForPath\<close>,
  from index \<open>i\<close> on: \<open>hop # rest\<close> is \<^verbatim>\<open>hops[i:]\<close>, so \<^verbatim>\<open>i == len(hops)-1\<close>
  is \<open>rest = []\<close> and \<^verbatim>\<open>hops[i+1]\<close> is the head of \<open>rest\<close>.
\<close>

fun buildHopInfos ::
  "('bp, 'pp, 'pkt) primitives \<Rightarrow> nat \<Rightarrow> Vertex list \<Rightarrow> error + HopInfo list" where
  "buildHopInfos prims i [] = Inr []"
| "buildHopInfos prims i (hop # rest) =
     (case ParsePubKey prims hop of
        Inl err \<Rightarrow> Inl (WrapHopf ''invalid pubkey at hop'' i (External err))
      | Inr pubKey \<Rightarrow>
          (case (case rest of
                   [] \<Rightarrow> Inr emptyBlindedRouteData
                 | next # _ \<Rightarrow>
                     (case ParsePubKey prims next of
                        Inl err \<Rightarrow> Inl (WrapHopf ''invalid next pubkey at hop'' i (External err))
                      | Inr nextPub \<Rightarrow>
                          Inr (NewNonFinalBlindedRouteDataOnionMessage (Inl nextPub) None None))) of
             Inl err \<Rightarrow> Inl err
           | Inr routeData \<Rightarrow>
               (case EncodeBlindedRouteData prims routeData of
                  Inl err \<Rightarrow> Inl (WrapHopf ''encode route data hop'' i (External err))
                | Inr encoded \<Rightarrow>
                    (case buildHopInfos prims (i + 1) rest of
                       Inl err \<Rightarrow> Inl err
                     | Inr infos \<Rightarrow> Inr (\<lparr>NodePub = pubKey, PlainText = encoded\<rparr> # infos)))))"

definition buildOnionMessageForPath ::
  "('bp, 'pp, 'pkt) primitives \<Rightarrow> OnionMessagePath \<Rightarrow> 'bp option \<Rightarrow> FinalHopTLV list \<Rightarrow> world
     \<Rightarrow> (error + bytes \<times> PublicKey) \<times> world" where
  "buildOnionMessageForPath prims path replyPath finalHopTLVs w =
     (case buildHopInfos prims 0 (Hops path) of
        Inl err \<Rightarrow> (Inl err, w)
      | Inr hopInfos \<Rightarrow>
     (case NewPrivateKey w of
        (Inl err, w1) \<Rightarrow> (Inl (Wrapf ''generate session key'' (External err)), w1)
      | (Inr sessionKey, w1) \<Rightarrow>
     (case BuildBlindedPath prims sessionKey hopInfos of
        Inl err \<Rightarrow> (Inl (Wrapf ''build blinded path'' (External err)), w1)
      | Inr blindedPath \<Rightarrow>
     (case OnionMessageBlindedPathToSphinxPath prims (Path blindedPath) replyPath finalHopTLVs of
        Inl err \<Rightarrow> (Inl (Wrapf ''convert to sphinx path'' (External err)), w1)
      | Inr sphinxPath \<Rightarrow>
     (case NewPrivateKey w1 of
        (Inl err, w2) \<Rightarrow> (Inl (Wrapf ''generate onion key'' (External err)), w2)
      | (Inr onionSessionKey, w2) \<Rightarrow>
     (case NewOnionPacket prims sphinxPath onionSessionKey of
        Inl err \<Rightarrow> (Inl (Wrapf ''create onion packet'' (External err)), w2)
      | Inr onionPkt \<Rightarrow>
     (case Encode prims onionPkt of
        Inl err \<Rightarrow> (Inl (Wrapf ''encode onion packet'' (External err)), w2)
      | Inr buf \<Rightarrow> (Inr (buf, PubKey prims (SessionKey blindedPath)), w2))))))))"

text \<open>
  \<^verbatim>\<open>copy(pubKeyBytes[:], firstHop[:])\<close> into a zeroed \<^verbatim>\<open>[33]byte\<close>.
\<close>

definition copy33 :: "bytes \<Rightarrow> bytes" where
  "copy33 src = take 33 src @ replicate (33 - length src) 0"

text \<open>
  Modelled from the spec: \<^verbatim>\<open>findPeerActor\<close> is not part of the sources at
  hand. Section 4.E: the registry is queried with the 33-byte form of the first
  hop for an actor handle, which may be absent.
\<close>

definition findPeerActor :: "Receptionist \<Rightarrow> bytes \<Rightarrow> ActorRef option" where
  "findPeerActor receptionist pubKeyBytes = receptionist pubKeyBytes"

definition sendToFirstHop ::
  "Receptionist \<Rightarrow> Vertex \<Rightarrow> PublicKey \<Rightarrow> bytes \<Rightarrow> world \<Rightarrow> (error + unit) \<times> world" where
  "sendToFirstHop receptionist firstHop blindingKey onionBlob w =
     (let pubKeyBytes = copy33 firstHop
      in case findPeerActor receptionist pubKeyBytes of
           None \<Rightarrow> (Inl ErrPeerActorNotFound, w)
         | Some actorRef \<Rightarrow>
             (Inr (), Tell actorRef \<lparr>msg = NewOnionMessage blindingKey onionBlob\<rparr> w))"

text \<open>\<^verbatim>\<open>SendToDestination\<close>; \<open>None\<close> when \<open>FindPath\<close> does not return.\<close>

definition SendToDestination ::
  "('bp, 'pp, 'pkt) primitives \<Rightarrow> SendConfig \<Rightarrow> Vertex \<Rightarrow> FinalHopTLV list \<Rightarrow> 'bp option \<Rightarrow> world
     \<Rightarrow> ((error + unit) \<times> world) option" where
  "SendToDestination prims cfg destination finalHopTLVs replyPath w =
     (case FindPath (Graph cfg) (OurPubKey cfg) destination (MaxHops cfg) of
        None \<Rightarrow> None
      | Some (Inl err) \<Rightarrow> Some (Inl err, w)
      | Some (Inr path) \<Rightarrow>
          if length (Hops path) = 0
          then Some (Inl (Errorf ''path to self is not supported''), w)
          else
            (case buildOnionMessageForPath prims path replyPath finalHopTLVs w of
               (Inl err, w1) \<Rightarrow> Some (Inl (Wrapf ''failed to build onion message'' err), w1)
             | (Inr (onionMsg, blindingKey), w1) \<Rightarrow>
                 Some (sendToFirstHop (Receptionist cfg) (Hops path ! 0) blindingKey onionMsg w1)))"

definition SendDirectToDestination ::
  "('bp, 'pp, 'pkt) primitives \<Rightarrow> SendConfig \<Rightarrow> OnionMessagePath \<Rightarrow> FinalHopTLV list \<Rightarrow> 'bp option
     \<Rightarrow> world \<Rightarrow> (error + unit) \<times> world" where
  "SendDirectToDestination prims cfg path finalHopTLVs replyPath w =
     (if length (Hops path) = 0
      then (Inl (Errorf ''path must have at least one hop''), w)
      else
        (case buildOnionMessageForPath prims path replyPath finalHopTLVs w of
           (Inl err, w1) \<Rightarrow> (Inl (Wrapf ''failed to build onion message'' err), w1)
         | (Inr (onionMsg, blindingKey), w1) \<Rightarrow>
             sendToFirstHop (Receptionist cfg) (Hops path ! 0) blindingKey onionMsg w1))"

section \<open>Notions the properties are stated with\<close>

text \<open>A node supports onion messages when its features can be fetched and have the bit.\<close>

definition supports :: "NodeTraverser \<Rightarrow> Vertex \<Rightarrow> bool" where
  "supports graph v =
     (case FetchNodeFeatures graph v of
        Inl err \<Rightarrow> False
      | Inr fv \<Rightarrow> HasFeature fv OnionMessagesOptional)"

text \<open>A hop leads over a channel to a supporting node; a route is a chain of hops.\<close>

definition hop :: "NodeTraverser \<Rightarrow> Vertex \<Rightarrow> Vertex \<Rightarrow> bool" where
  "hop graph u v = (v \<in> set (DirectedChannels graph u) \<and> supports graph v)"

fun route :: "NodeTraverser \<Rightarrow> Vertex \<Rightarrow> Vertex list \<Rightarrow> bool" where
  "route graph u [] = True"
| "route graph u (v # hops) = (hop graph u v \<and> route graph v hops)"

text \<open>\<open>linked p u hops\<close>: in \<open>u # hops\<close> each vertex is the parent of the next.\<close>

fun linked :: "(Vertex \<rightharpoonup> Vertex) \<Rightarrow> Vertex \<Rightarrow> Vertex list \<Rightarrow> bool" where
  "linked p u [] = True"
| "linked p u (v # hops) = (p v = Some u \<and> linked p v hops)"

definition cacheOK :: "NodeTraverser \<Rightarrow> bfs \<Rightarrow> bool" where
  "cacheOK graph st = (\<forall>v b. featureCache st v = Some b \<longrightarrow> b = supports graph v)"

text \<open>
  \<open>treePath graph s st n v\<close>: the parent map of \<open>st\<close> links \<open>v\<close> to the source
  by a route of at most \<open>n\<close> distinct visited hops.
\<close>

definition treePath :: "NodeTraverser \<Rightarrow> Vertex \<Rightarrow> bfs \<Rightarrow> nat \<Rightarrow> Vertex \<Rightarrow> bool" where
  "treePath graph s st n v =
     (\<exists>hops. linked (parent st) s hops \<and> last (s # hops) = v \<and> route graph s hops
        \<and> distinct (s # hops) \<and> set hops \<subseteq> visited st \<and> length hops \<le> n)"

definition bfsInv :: "NodeTraverser \<Rightarrow> Vertex \<Rightarrow> nat \<Rightarrow> bfs \<Rightarrow> bool" where
  "bfsInv graph s n st =
     (s \<in> visited st \<and> dom (parent st) \<subseteq> visited st \<and> cacheOK graph st
        \<and> set (nextQueue st) \<subseteq> visited st
        \<and> (\<forall>v\<in>visited st. treePath graph s st n v))"

text \<open>\<open>ext st st1\<close>: \<open>st1\<close> has more visited vertices and the same parents for the old ones.\<close>

definition ext :: "bfs \<Rightarrow> bfs \<Rightarrow> bool" where
  "ext st st1 = (visited st \<subseteq> visited st1 \<and> (\<forall>v\<in>visited st. parent st1 v = parent st v))"




section \<open>The mock adapter and the graphs of the tests (pathfind\_test.go)\<close>

definition onionFeatures :: FeatureVector where
  "onionFeatures = {OnionMessagesOptional}"

definition emptyFeatures :: FeatureVector where
  "emptyFeatures = {}"

record mockNodeTraverser =
  edges :: "Vertex \<rightharpoonup> Vertex list"
  features :: "Vertex \<rightharpoonup> FeatureVector"

definition newMockNodeTraverser :: mockNodeTraverser where
  "newMockNodeTraverser = \<lparr>edges = Map.empty, features = Map.empty\<rparr>"

definition addNode :: "Vertex \<Rightarrow> FeatureVector \<Rightarrow> mockNodeTraverser \<Rightarrow> mockNodeTraverser" where
  "addNode v fv m = m\<lparr>features := (features m)(v \<mapsto> fv)\<rparr>"

definition neighborsOf :: "mockNodeTraverser \<Rightarrow> Vertex \<Rightarrow> Vertex list" where
  "neighborsOf m v = (case edges m v of None \<Rightarrow> [] | Some ns \<Rightarrow> ns)"

definition addEdge :: "Vertex \<Rightarrow> Vertex \<Rightarrow> mockNodeTraverser \<Rightarrow> mockNodeTraverser" where
  "addEdge a b m =
     (let m1 = m\<lparr>edges := (edges m)(a \<mapsto> neighborsOf m a @ [b])\<rparr>
      in m1\<lparr>edges := (edges m1)(b \<mapsto> neighborsOf m1 b @ [a])\<rparr>)"

text \<open>The two methods of the mock, as a \<open>NodeTraverser\<close>; its traversal never fails.\<close>

definition mockGraph :: "mockNodeTraverser \<Rightarrow> NodeTraverser" where
  "mockGraph m =
     \<lparr>FetchNodeFeatures = (\<lambda>v. case features m v of
                                   None \<Rightarrow> Inl ''node not found''
                                 | Some fv \<Rightarrow> Inr fv),
      DirectedChannels = neighborsOf m,
      TraversalErr = (\<lambda>v. None)\<rparr>"

text \<open>\<^verbatim>\<open>TestFindPathFeatureFiltering\<close>: 1-2, 2-4, 1-3, 3-4, node 2 without the feature.\<close>

definition filterGraph :: NodeTraverser where
  "filterGraph = mockGraph
     (addEdge (vertexFromByte 3) (vertexFromByte 4)
     (addEdge (vertexFromByte 1) (vertexFromByte 3)
     (addEdge (vertexFromByte 2) (vertexFromByte 4)
     (addEdge (vertexFromByte 1) (vertexFromByte 2)
     (addNode (vertexFromByte 4) onionFeatures
     (addNode (vertexFromByte 3) onionFeatures
     (addNode (vertexFromByte 2) emptyFeatures
     (addNode (vertexFromByte 1) onionFeatures newMockNodeTraverser))))))))"

text \<open>\<^verbatim>\<open>TestFindPathSameSourceAndDest\<close>: a single node.\<close>

definition selfGraph :: NodeTraverser where
  "selfGraph = mockGraph (addNode (vertexFromByte 1) onionFeatures newMockNodeTraverser)"

text \<open>\<^verbatim>\<open>TestFindPathDestinationNotInGraph\<close>: only the source is in the graph.\<close>

definition notInGraph :: NodeTraverser where
  "notInGraph = mockGraph (addNode (vertexFromByte 1) onionFeatures newMockNodeTraverser)"

text \<open>\<^verbatim>\<open>TestFindPathDestinationNoOnionSupport\<close>: 1-2, node 2 without the feature.\<close>

definition noSupportGraph :: NodeTraverser where
  "noSupportGraph = mockGraph
     (addEdge (vertexFromByte 1) (vertexFromByte 2)
     (addNode (vertexFromByte 2) emptyFeatures
     (addNode (vertexFromByte 1) onionFeatures newMockNodeTraverser)))"

text \<open>An adapter whose every call fails, and the filtering graph with a failing traversal of node 1.\<close>

definition closedGraph :: NodeTraverser where
  "closedGraph =
     \<lparr>FetchNodeFeatures = (\<lambda>v. Inl ''database closed''),
      DirectedChannels = (\<lambda>v. []),
      TraversalErr = (\<lambda>v. Some ''database closed'')\<rparr>"

definition brokenGraph :: NodeTraverser where
  "brokenGraph = filterGraph\<lparr>TraversalErr :=
     (\<lambda>v. if v = vertexFromByte 1 then Some ''database closed'' else None)\<rparr>"

section \<open>Stand-ins for the library functions, to run the builder on concrete inputs\<close>

text \<open>
  A key parses when it starts with byte 2 or 3, as a compressed key does; the
  other functions are small injective placeholders for the cryptography.
\<close>

definition toyPrimitives :: "(HopInfo list, bytes, bytes) primitives" where
  "toyPrimitives =
     \<lparr>ParsePubKey = (\<lambda>b. case b of
                         x # y # _ \<Rightarrow> if x = 2 \<or> x = 3 then Inr (Point (uint y) (uint x))
                                      else Inl ''malformed public key''
                       | _ \<Rightarrow> Inl ''malformed public key''),
      PubKey = (\<lambda>sk. if sk = 7 then Point 7 2 else if sk = 8 then Point 8 2 else Point 0 2),
      EncodeBlindedRouteData = (\<lambda>r. case NextNodeID r of
                                        None \<Rightarrow> Inr []
                                      | Some (Point x y) \<Rightarrow> Inr [4, 33, word_of_int y, word_of_int x]),
      BuildBlindedPath = (\<lambda>sk infos. if infos = [] then Inl ''no hops''
                                      else Inr \<lparr>Path = infos, SessionKey = sk\<rparr>),
      OnionMessageBlindedPathToSphinxPath =
        (\<lambda>bp reply tlvs. Inr (concat (map PlainText bp) @ concat (map Value tlvs))),
      NewOnionPacket = (\<lambda>pp sk. Inr ((if sk = 8 then 8 else 0) # pp)),
      Encode = (\<lambda>pkt. Inr pkt)\<rparr>"

definition toyWorld :: world where
  "toyWorld = \<lparr>keySource = (\<lambda>n. if n = 0 then Inr 7 else Inr 8), drawn = 0, told = []\<rparr>"

definition toyConfig :: SendConfig where
  "toyConfig = \<lparr>Graph = selfGraph, OurPubKey = vertexFromByte 1,
                 Receptionist = [vertexFromByte 2 \<mapsto> 5], MaxHops = 20\<rparr>"

definition laterWorld :: world where
  "laterWorld = \<lparr>keySource = (\<lambda>n. if n = 3 then Inr 7 else Inr 8), drawn = 3,
                  told = [(5, \<lparr>msg = \<lparr>PathKey = Point 1 2, OnionBlob = []\<rparr>\<rparr>)]\<rparr>"

section \<open>The search keeps a tree of routes\<close>

lemma route_snoc: "route graph u (hops @ [v]) = (route graph u hops \<and> hop graph (last (u # hops)) v)"
  by (induction hops arbitrary: u) auto

lemma linked_snoc: "linked p u (hops @ [v]) = (linked p u hops \<and> p v = Some (last (u # hops)))"
  by (induction hops arbitrary: u) auto

lemma linked_cong: "linked p u hops \<Longrightarrow> \<forall>v\<in>set hops. q v = p v \<Longrightarrow> linked q u hops"
  by (induction hops arbitrary: u) auto

lemma linked_dom: "linked p u hops \<Longrightarrow> set hops \<subseteq> dom p"
  by (induction hops arbitrary: u) auto

lemma ext_refl: "ext st st"
  by (simp add: ext_def)

lemma ext_trans: "ext a b \<Longrightarrow> ext b c \<Longrightarrow> ext a c"
  by (auto simp: ext_def)

lemma treePath_ext: "treePath graph s st n v \<Longrightarrow> ext st st1 \<Longrightarrow> treePath graph s st1 n v"
  unfolding treePath_def ext_def
  apply (elim exE conjE)
  subgoal for hops
    apply (rule exI[of _ hops])
    apply (auto intro: linked_cong)
    done
  done

lemma treePath_mono: "treePath graph s st n v \<Longrightarrow> n \<le> m \<Longrightarrow> treePath graph s st m v"
  unfolding treePath_def
  apply (elim exE conjE)
  subgoal for hops
    apply (rule exI[of _ hops])
    apply simp
    done
  done

lemma cacheOK_upd: "cacheOK graph st \<Longrightarrow> cacheOK graph (st\<lparr>featureCache := (featureCache st)(v \<mapsto> supports graph v)\<rparr>)"
  by (simp add: cacheOK_def)

lemma supportsOnionMessages_spec:
  assumes "cacheOK graph st" and "supportsOnionMessages graph node st = (b, st1)"
  shows "b = supports graph node \<and> cacheOK graph st1 \<and> parent st1 = parent st
           \<and> visited st1 = visited st \<and> nextQueue st1 = nextQueue st"
proof (cases "featureCache st node")
  case (Some c)
  then have "c = supports graph node"
    using assms(1) by (simp add: cacheOK_def)
  with Some assms show ?thesis
    by (auto simp: supportsOnionMessages_def)
next
  case None
  show ?thesis
  proof (cases "FetchNodeFeatures graph node")
    case (Inl e)
    then have s: "supports graph node = False"
      by (simp add: supports_def)
    have "st1 = st\<lparr>featureCache := (featureCache st)(node \<mapsto> supports graph node)\<rparr>" "b = False"
      using assms(2) None Inl s by (auto simp: supportsOnionMessages_def)
    then show ?thesis
      using cacheOK_upd[OF assms(1), of node] s by simp
  next
    case (Inr fv)
    then have s: "supports graph node = HasFeature fv OnionMessagesOptional"
      by (simp add: supports_def)
    have "st1 = st\<lparr>featureCache := (featureCache st)(node \<mapsto> supports graph node)\<rparr>"
         "b = supports graph node"
      using assms(2) None Inr s by (auto simp: supportsOnionMessages_def Let_def)
    then show ?thesis
      using cacheOK_upd[OF assms(1), of node] by simp
  qed
qed


lemma visit_cases:
  assumes "cacheOK graph st" and "visit graph d cur nb st = (r, st1)"
  shows "cacheOK graph st1 \<and>
    (if nb \<in> visited st \<or> \<not> supports graph nb
     then r = None \<and> visited st1 = visited st \<and> parent st1 = parent st
          \<and> nextQueue st1 = nextQueue st
     else visited st1 = insert nb (visited st) \<and> parent st1 = (parent st)(nb \<mapsto> cur)
          \<and> (if nb = d then r = Some errBFSDone \<and> nextQueue st1 = nextQueue st
               else r = None \<and> nextQueue st1 = nextQueue st @ [nb]))"
proof (cases "nb \<in> visited st")
  case True
  with assms show ?thesis by (simp add: visit_def)
next
  case False
  obtain b st0 where so: "supportsOnionMessages graph nb st = (b, st0)"
    by (cases "supportsOnionMessages graph nb st")
  note sp = supportsOnionMessages_spec[OF assms(1) so]
  show ?thesis
  proof (cases b)
    case True
    with False so sp assms(2) show ?thesis
      by (auto simp: visit_def Let_def cacheOK_def split: if_splits)
  next
    case False
    with \<open>nb \<notin> visited st\<close> so sp assms(2) show ?thesis
      by (auto simp: visit_def)
  qed
qed

lemma visit_inv:
  assumes i: "bfsInv graph s n st" and c: "treePath graph s st m cur" and mn: "Suc m \<le> n"
    and nb: "nb \<in> set (DirectedChannels graph cur)"
    and v: "visit graph d cur nb st = (r, st1)"
  shows "bfsInv graph s n st1 \<and> ext st st1 \<and> (r = None \<or> r = Some errBFSDone \<and> d \<in> visited st1)"
proof -
  have ok: "cacheOK graph st" using i by (simp add: bfsInv_def)
  note vc = visit_cases[OF ok v]
  show ?thesis
  proof (cases "nb \<in> visited st \<or> \<not> supports graph nb")
    case True
    with vc have eq: "visited st1 = visited st" "parent st1 = parent st"
        "nextQueue st1 = nextQueue st" "r = None" "cacheOK graph st1"
      by simp_all
    have e: "ext st st1" by (simp add: ext_def eq)
    have "bfsInv graph s n st1"
      using i eq treePath_ext[OF _ e] by (auto simp: bfsInv_def)
    with e eq show ?thesis by simp
  next
    case False
    with vc have eq: "visited st1 = insert nb (visited st)" "parent st1 = (parent st)(nb \<mapsto> cur)"
        "cacheOK graph st1"
      and q: "set (nextQueue st1) \<subseteq> insert nb (set (nextQueue st))"
      and r: "r = None \<or> r = Some errBFSDone \<and> nb = d"
      by (auto split: if_splits)
    from False have nv: "nb \<notin> visited st" and sup: "supports graph nb" by simp_all
    have e: "ext st st1" using nv by (auto simp: ext_def eq)
    from c obtain hops where h: "linked (parent st) s hops" "last (s # hops) = cur"
        "route graph s hops" "distinct (s # hops)" "set hops \<subseteq> visited st" "length hops \<le> m"
      unfolding treePath_def by blast
    have sv: "s \<in> visited st" using i by (simp add: bfsInv_def)
    have nh: "nb \<notin> set hops" "nb \<noteq> s" using nv h(5) sv by auto
    have l1: "linked (parent st1) s hops"
      by (rule linked_cong[OF h(1)]) (use nh in \<open>auto simp: eq\<close>)
    have "linked (parent st1) s (hops @ [nb])"
      unfolding linked_snoc using l1 h(2) by (simp add: eq)
    moreover have "route graph s (hops @ [nb])"
      unfolding route_snoc using h(3) h(2) nb sup by (simp add: hop_def)
    moreover have "distinct (s # hops @ [nb])" using h(4) nh by auto
    moreover have "set (hops @ [nb]) \<subseteq> visited st1" using h(5) by (auto simp: eq)
    moreover have "length (hops @ [nb]) \<le> n" using h(6) mn by simp
    moreover have "last (s # hops @ [nb]) = nb" by simp
    ultimately have tn: "treePath graph s st1 n nb"
      unfolding treePath_def by blast
    have "\<forall>v\<in>visited st1. treePath graph s st1 n v"
      using tn i treePath_ext[OF _ e] by (auto simp: eq bfsInv_def)
    moreover have "dom (parent st1) \<subseteq> visited st1" using i by (auto simp: eq bfsInv_def)
    moreover have "set (nextQueue st1) \<subseteq> visited st1" using q i by (auto simp: eq bfsInv_def)
    ultimately have "bfsInv graph s n st1"
      using sv eq by (simp add: bfsInv_def)
    with e r eq show ?thesis by auto
  qed
qed

lemma forEachChannel_inv:
  assumes "bfsInv graph s n st" and "treePath graph s st m cur" and "Suc m \<le> n"
    and "set ns \<subseteq> set (DirectedChannels graph cur)"
    and "forEachChannel (visit graph d cur) ns st = (r, st1)"
  shows "bfsInv graph s n st1 \<and> ext st st1 \<and> (r = None \<or> r = Some errBFSDone \<and> d \<in> visited st1)"
  using assms
proof (induction ns arbitrary: st)
  case Nil
  then show ?case by (simp add: ext_refl)
next
  case (Cons nb ns)
  obtain r0 st0 where v: "visit graph d cur nb st = (r0, st0)"
    by (cases "visit graph d cur nb st")
  have nb: "nb \<in> set (DirectedChannels graph cur)" using Cons.prems(4) by simp
  note vi = visit_inv[OF Cons.prems(1) Cons.prems(2) Cons.prems(3) nb v]
  show ?case
  proof (cases r0)
    case None
    with v Cons.prems(5) have f: "forEachChannel (visit graph d cur) ns st0 = (r, st1)"
      by simp
    have t: "treePath graph s st0 m cur"
      using treePath_ext[OF Cons.prems(2)] vi by simp
    have "set ns \<subseteq> set (DirectedChannels graph cur)" using Cons.prems(4) by simp
    from Cons.IH[OF _ t Cons.prems(3) this f] vi
    show ?thesis by (auto intro: ext_trans)
  next
    case (Some e)
    with v Cons.prems(5) have "r = r0" "st1 = st0" by simp_all
    with vi show ?thesis by simp
  qed
qed


lemma ForEachNodeDirectedChannel_inv:
  assumes "bfsInv graph s n st" and "treePath graph s st m cur" and "Suc m \<le> n"
    and "ForEachNodeDirectedChannel graph cur (visit graph d cur) st = (r, st1)"
  shows "bfsInv graph s n st1 \<and> ext st st1
           \<and> (r = None \<or> r = Some errBFSDone \<and> d \<in> visited st1 \<or> (\<exists>cause. r = Some (External cause)))"
proof -
  obtain r0 st0 where f: "forEachChannel (visit graph d cur) (DirectedChannels graph cur) st = (r0, st0)"
    by (cases "forEachChannel (visit graph d cur) (DirectedChannels graph cur) st")
  note fi = forEachChannel_inv[OF assms(1) assms(2) assms(3) subset_refl f]
  show ?thesis
  proof (cases r0)
    case None
    with f assms(4) have "st1 = st0" "r = map_option External (TraversalErr graph cur)"
      by (simp_all add: ForEachNodeDirectedChannel_def)
    with fi show ?thesis by (cases "TraversalErr graph cur") auto
  next
    case (Some e)
    with f assms(4) have "st1 = st0" "r = r0"
      by (simp_all add: ForEachNodeDirectedChannel_def)
    with fi show ?thesis by blast
  qed
qed

lemma expandLevel_inv:
  assumes "bfsInv graph s n st" and "\<forall>u\<in>set queue. treePath graph s st m u" and "Suc m \<le> n"
  shows "case expandLevel graph d queue st of
           NextLevel st1 \<Rightarrow> bfsInv graph s n st1 \<and> ext st st1
         | Found st1 \<Rightarrow> bfsInv graph s n st1 \<and> ext st st1 \<and> d \<in> visited st1
         | Failed err \<Rightarrow> (\<exists>cause. err = External cause)"
  using assms
proof (induction queue arbitrary: st)
  case Nil
  then show ?case by (simp add: ext_refl)
next
  case (Cons cur queue)
  obtain r st0 where f: "ForEachNodeDirectedChannel graph cur (visit graph d cur) st = (r, st0)"
    by (cases "ForEachNodeDirectedChannel graph cur (visit graph d cur) st")
  have c: "treePath graph s st m cur" using Cons.prems(2) by simp
  note fi = ForEachNodeDirectedChannel_inv[OF Cons.prems(1) c Cons.prems(3) f]
  show ?case
  proof (cases r)
    case None
    have q: "\<forall>u\<in>set queue. treePath graph s st0 m u"
      using Cons.prems(2) fi treePath_ext by auto
    have i0: "bfsInv graph s n st0" using fi by simp
    have e: "expandLevel graph d (cur # queue) st = expandLevel graph d queue st0"
      using f None by simp
    show ?thesis
      using Cons.IH[OF i0 q Cons.prems(3)] fi unfolding e
      by (auto split: level.splits intro: ext_trans)
  next
    case (Some err)
    with f fi show ?thesis by auto
  qed
qed

lemma bfsInv_mono: "bfsInv graph s n st \<Longrightarrow> n \<le> m \<Longrightarrow> bfsInv graph s m st"
  unfolding bfsInv_def using treePath_mono by blast

lemma treePath_reset: "treePath graph s (st\<lparr>nextQueue := []\<rparr>) n v = treePath graph s st n v"
  by (simp add: treePath_def)

lemma bfsInv_reset: "bfsInv graph s n st \<Longrightarrow> bfsInv graph s n (st\<lparr>nextQueue := []\<rparr>)"
  unfolding bfsInv_def treePath_def cacheOK_def by simp

lemma bfsLoop_inv:
  assumes "bfsInv graph s i st" and "set queue \<subseteq> visited st" and "depth = int i"
  shows "case bfsLoop graph d maxHops queue depth st of
           Inr st1 \<Rightarrow> (\<exists>n. int n \<le> maxHops \<and> bfsInv graph s n st1) \<and> d \<in> visited st1
         | Inl err \<Rightarrow> err = ErrNoPathFound \<or> (\<exists>cause. err = External cause)"
  using assms
proof (induction graph d maxHops queue depth st arbitrary: i rule: bfsLoop.induct)
  case (1 graph d maxHops queue depth st)
  show ?case
  proof (cases "queue = [] \<or> depth + 1 > maxHops")
    case True
    then show ?thesis by (auto simp: bfsLoop.simps[of graph d maxHops queue depth st])
  next
    case False
    let ?st = "st\<lparr>nextQueue := []\<rparr>"
    have i1: "bfsInv graph s (Suc i) ?st"
      using bfsInv_reset[OF bfsInv_mono[OF "1.prems"(1)], of "Suc i"] by simp
    have q: "\<forall>u\<in>set queue. treePath graph s ?st i u"
      using "1.prems"(1,2) unfolding bfsInv_def treePath_reset by blast
    note ei = expandLevel_inv[OF i1 q le_refl, of d]
    show ?thesis
    proof (cases "expandLevel graph d queue ?st")
      case (NextLevel st1)
      with ei have i2: "bfsInv graph s (Suc i) st1" by simp
      then have q2: "set (nextQueue st1) \<subseteq> visited st1" by (simp add: bfsInv_def)
      have d2: "depth + 1 = int (Suc i)" using "1.prems"(3) by simp
      from "1.IH"[OF _ _ NextLevel i2 q2 d2] False NextLevel
      show ?thesis by (simp add: bfsLoop.simps[of graph d maxHops queue depth st])
    next
      case (Found st1)
      with ei have "bfsInv graph s (Suc i) st1" "d \<in> visited st1" by simp_all
      moreover have "int (Suc i) \<le> maxHops" using False "1.prems"(3) by simp
      ultimately have "(\<exists>n. int n \<le> maxHops \<and> bfsInv graph s n st1) \<and> d \<in> visited st1"
        by blast
      then show ?thesis using False Found
        by (simp add: bfsLoop.simps[of graph d maxHops queue depth st])
    next
      case (Failed err)
      with ei False show ?thesis
        by (auto simp: bfsLoop.simps[of graph d maxHops queue depth st])
    qed
  qed
qed

lemma walkParents_linked:
  "linked p s hops \<Longrightarrow> s \<notin> set hops \<Longrightarrow>
     walkParents p s (last (s # hops)) acc = Some (acc @ rev hops)"
proof (induction hops arbitrary: acc rule: rev_induct)
  case Nil
  then show ?case by (simp add: walkParents.simps)
next
  case (snoc v hops)
  then have l: "linked p s hops" "p v = Some (last (s # hops))" and ne: "v \<noteq> s" "s \<notin> set hops"
    by (auto simp: linked_snoc)
  have "walkParents p s v acc = walkParents p s (last (s # hops)) (acc @ [v])"
    using ne l(2) by (subst walkParents.simps) (simp add: parentOf_def)
  also have "\<dots> = Some ((acc @ [v]) @ rev hops)"
    by (rule snoc.IH[OF l(1) ne(2)])
  finally show ?case by simp
qed

lemma bfsInv_initial:
  "supports graph d \<Longrightarrow> bfsInv graph s 0 (initialBfs s d)"
  unfolding bfsInv_def initialBfs_def cacheOK_def treePath_def
  by (auto intro: exI[of _ "[]"])


lemma bfsLoop_found:
  assumes sup: "supports graph d" and ne: "s \<noteq> d"
    and b: "bfsLoop graph d maxHops [s] 0 (initialBfs s d) = Inr st"
  shows "\<exists>hops. reconstructPath (parent st) s d = Some \<lparr>Hops = hops\<rparr>
           \<and> linked (parent st) s hops \<and> hops \<noteq> [] \<and> last hops = d \<and> route graph s hops
           \<and> distinct (s # hops) \<and> int (length hops) \<le> maxHops"
proof -
  have q: "set [s] \<subseteq> visited (initialBfs s d)" by (simp add: initialBfs_def)
  have z: "(0::int) = int 0" by simp
  from bfsLoop_inv[OF bfsInv_initial[OF sup] q z, where d = d and maxHops = maxHops] b
  obtain n where n: "int n \<le> maxHops" "bfsInv graph s n st" "d \<in> visited st"
    by auto
  then have "treePath graph s st n d" by (simp add: bfsInv_def)
  then obtain hops where h: "linked (parent st) s hops" "last (s # hops) = d" "route graph s hops"
      "distinct (s # hops)" "length hops \<le> n"
    unfolding treePath_def by blast
  from h(2) ne have h2: "hops \<noteq> []" "last hops = d" by (auto split: if_splits)
  have "walkParents (parent st) s d [] = Some (rev hops)"
    using walkParents_linked[OF h(1), of "[]"] h(2,4) by simp
  then have "reconstructPath (parent st) s d = Some \<lparr>Hops = hops\<rparr>"
    by (simp add: reconstructPath_def)
  with h h2 n(1) show ?thesis by auto
qed

lemma route_nth:
  "route graph u hops \<Longrightarrow> j < length hops \<Longrightarrow>
     hops ! j \<in> set (DirectedChannels graph ((u # hops) ! j)) \<and> supports graph (hops ! j)"
proof (induction hops arbitrary: u j)
  case Nil
  then show ?case by simp
next
  case (Cons v hops)
  then show ?case by (cases j) (auto simp: hop_def)
qed

lemma route_supports: "route graph u hops \<Longrightarrow> v \<in> set hops \<Longrightarrow> supports graph v"
  by (induction hops arbitrary: u) (auto simp: hop_def)

lemma FindPath_unfold:
  "FindPath graph s d maxHops =
     (case FetchNodeFeatures graph d of
        Inl err \<Rightarrow> Some (Inl (External err))
      | Inr fv \<Rightarrow>
          if \<not> supports graph d then Some (Inl ErrDestinationNoOnionSupport)
          else if s = d then Some (Inr \<lparr>Hops = []\<rparr>)
          else (case bfsLoop graph d maxHops [s] 0 (initialBfs s d) of
                  Inl err \<Rightarrow> Some (Inl err)
                | Inr st \<Rightarrow> map_option Inr (reconstructPath (parent st) s d)))"
  by (simp add: FindPath_def supports_def split: sum.splits)

lemma FindPath_Inr:
  assumes "FindPath graph s d maxHops = Some (Inr path)"
  shows "supports graph d \<and>
    (if s = d then Hops path = []
     else Hops path \<noteq> [] \<and> last (Hops path) = d \<and> route graph s (Hops path)
          \<and> distinct (s # Hops path) \<and> int (length (Hops path)) \<le> maxHops)"
proof (cases "FetchNodeFeatures graph d")
  case (Inl e)
  with assms show ?thesis by (simp add: FindPath_unfold)
next
  case (Inr fv)
  show ?thesis
  proof (cases "supports graph d \<and> s \<noteq> d")
    case False
    with Inr assms show ?thesis by (auto simp: FindPath_unfold split: if_splits)
  next
    case True
    show ?thesis
    proof (cases "bfsLoop graph d maxHops [s] 0 (initialBfs s d)")
      case (Inl err)
      with True Inr assms show ?thesis by (simp add: FindPath_unfold)
    next
      case (Inr st)
      from bfsLoop_found[OF _ _ Inr] True
      obtain hops where h: "reconstructPath (parent st) s d = Some \<lparr>Hops = hops\<rparr>"
          "hops \<noteq> []" "last hops = d" "route graph s hops" "distinct (s # hops)"
          "int (length hops) \<le> maxHops"
        by blast
      have "FindPath graph s d maxHops = Some (Inr \<lparr>Hops = hops\<rparr>)"
        using True \<open>FetchNodeFeatures graph d = Inr fv\<close> Inr h(1) by (simp add: FindPath_unfold)
      with assms have "Hops path = hops" by auto
      with h True show ?thesis by simp
    qed
  qed
qed

lemma vertexFromByte_eq [simp]: "(vertexFromByte a = vertexFromByte b) = (a = b)"
  by (simp add: vertexFromByte_def)

lemmas mock_simps = mockGraph_def addEdge_def addNode_def newMockNodeTraverser_def
  neighborsOf_def onionFeatures_def emptyFeatures_def HasFeature_def OnionMessagesOptional_def
  Let_def

lemmas FindPath_simps = FindPath_def initialBfs_def bfsLoop.simps ForEachNodeDirectedChannel_def
  visit_def supportsOnionMessages_def reconstructPath_def walkParents.simps parentOf_def

lemma FindPath_filterGraph:
  "FindPath filterGraph (vertexFromByte 1) (vertexFromByte 4) 20
     = Some (Inr \<lparr>Hops = [vertexFromByte 3, vertexFromByte 4]\<rparr>)"
  by (simp add: filterGraph_def mock_simps FindPath_simps)

lemma FindPath_selfGraph:
  "FindPath selfGraph (vertexFromByte 1) (vertexFromByte 1) k = Some (Inr \<lparr>Hops = []\<rparr>)"
  by (simp add: selfGraph_def mock_simps FindPath_def)

section \<open>Properties of the path finder\<close>

text \<open>
  C1, as the code has it. When \<open>FindPath\<close> returns a path for a source different
  from the destination, the path is not empty, ends in the destination and has
  at most \<open>maxHops\<close> hops; for source equal to destination the path is empty
  (so it is within the cap exactly when the cap is not negative). In both cases
  every hop supports onion messages, each hop is a channel neighbour of the
  vertex before it in \<open>source # hops\<close>, the source is not among the hops and
  the hops are pairwise distinct.
\<close>

theorem FindPath_sound:
  assumes "FindPath graph s d maxHops = Some (Inr path)"
  shows "(s = d \<longrightarrow> Hops path = [])
    \<and> (s \<noteq> d \<longrightarrow> Hops path \<noteq> [] \<and> last (Hops path) = d \<and> int (length (Hops path)) \<le> maxHops)
    \<and> (0 \<le> maxHops \<longrightarrow> int (length (Hops path)) \<le> maxHops)
    \<and> (\<forall>v\<in>set (Hops path). supports graph v)
    \<and> (\<forall>j<length (Hops path).
          Hops path ! j \<in> set (DirectedChannels graph ((s # Hops path) ! j)))
    \<and> s \<notin> set (Hops path) \<and> distinct (Hops path)"
proof (cases "s = d")
  case True
  with FindPath_Inr[OF assms] show ?thesis by simp
next
  case False
  with FindPath_Inr[OF assms] have h: "Hops path \<noteq> []" "last (Hops path) = d"
      "route graph s (Hops path)" "distinct (s # Hops path)" "int (length (Hops path)) \<le> maxHops"
    by simp_all
  show ?thesis
    using False h route_nth[OF h(3)] route_supports[OF h(3)] by auto
qed

theorem FindPath_sound_witness:
  "(Hops \<lparr>Hops = [vertexFromByte 3, vertexFromByte 4]\<rparr> \<noteq> []
      \<and> last (Hops \<lparr>Hops = [vertexFromByte 3, vertexFromByte 4]\<rparr>) = vertexFromByte 4
      \<and> supports filterGraph (vertexFromByte 3)
      \<and> vertexFromByte 3 \<in> set (DirectedChannels filterGraph (vertexFromByte 1))
      \<and> vertexFromByte 4 \<in> set (DirectedChannels filterGraph (vertexFromByte 3)))
   \<and> Hops \<lparr>Hops = []\<rparr> = []"
proof -
  have a: "(1::nat) < length [vertexFromByte 3, vertexFromByte 4]" by simp
  have b: "(0::nat) < length [vertexFromByte 3, vertexFromByte 4]" by simp
  show ?thesis
    using FindPath_sound[OF FindPath_filterGraph] FindPath_sound[OF FindPath_selfGraph, of 20] a b
    by auto
qed

text \<open>
  C1 as it is written fails where source and destination coincide. The call
  returns the empty path, in which the destination does not occur, so no last
  vertex equals it; and with a negative cap the length 0 of the path exceeds
  the cap.
\<close>

theorem FindPath_self_counterexample:
  "FindPath selfGraph (vertexFromByte 1) (vertexFromByte 1) 20 = Some (Inr \<lparr>Hops = []\<rparr>)
   \<and> vertexFromByte 1 \<notin> set (Hops \<lparr>Hops = []\<rparr>)
   \<and> FindPath selfGraph (vertexFromByte 1) (vertexFromByte 1) (- 1) = Some (Inr \<lparr>Hops = []\<rparr>)
   \<and> \<not> int (length (Hops \<lparr>Hops = []\<rparr>)) \<le> - 1"
  by (simp add: selfGraph_def mock_simps FindPath_def)

section \<open>The search is complete level by level\<close>











lemma filterGraph_facts:
  "vertexFromByte 1 \<noteq> vertexFromByte 4" "supports filterGraph (vertexFromByte 4)"
  "\<forall>u. TraversalErr filterGraph u = None"
  "route filterGraph (vertexFromByte 1) [vertexFromByte 3, vertexFromByte 4]"
  by (simp_all add: filterGraph_def mock_simps supports_def hop_def)


section \<open>Errors, termination and the sentinel\<close>

lemma FindPath_returns: "\<exists>r. FindPath graph s d maxHops = Some r"
proof (cases "FetchNodeFeatures graph d")
  case (Inl e)
  then show ?thesis by (simp add: FindPath_unfold)
next
  case (Inr fv)
  show ?thesis
  proof (cases "supports graph d \<and> s \<noteq> d")
    case False
    with Inr show ?thesis by (auto simp: FindPath_unfold)
  next
    case True
    show ?thesis
    proof (cases "bfsLoop graph d maxHops [s] 0 (initialBfs s d)")
      case (Inl err)
      with True Inr show ?thesis by (simp add: FindPath_unfold)
    next
      case st: (Inr st)
      from bfsLoop_found[OF _ _ st] True
      obtain hops where "reconstructPath (parent st) s d = Some \<lparr>Hops = hops\<rparr>"
        by blast
      with True Inr st show ?thesis by (simp add: FindPath_unfold)
    qed
  qed
qed

lemma FindPath_errors:
  assumes "FindPath graph s d maxHops = Some (Inl err)"
  shows "err = ErrDestinationNoOnionSupport \<or> err = ErrNoPathFound \<or> (\<exists>cause. err = External cause)"
proof (cases "FetchNodeFeatures graph d")
  case (Inl e)
  with assms show ?thesis by (auto simp: FindPath_unfold)
next
  case (Inr fv)
  show ?thesis
  proof (cases "supports graph d \<and> s \<noteq> d")
    case False
    with Inr assms show ?thesis by (auto simp: FindPath_unfold split: if_splits)
  next
    case True
    have q: "set [s] \<subseteq> visited (initialBfs s d)" by (simp add: initialBfs_def)
    have z: "(0::int) = int 0" by simp
    note bi = bfsLoop_inv[OF bfsInv_initial q z, where d = d and maxHops = maxHops and graph = graph]
    show ?thesis
    proof (cases "bfsLoop graph d maxHops [s] 0 (initialBfs s d)")
      case (Inl e)
      with True Inr assms have "err = e" by (simp add: FindPath_unfold)
      with bi Inl True show ?thesis by auto
    next
      case st: (Inr st)
      from bfsLoop_found[OF _ _ st] True
      obtain hops where "reconstructPath (parent st) s d = Some \<lparr>Hops = hops\<rparr>"
        by blast
      with True Inr st assms show ?thesis by (simp add: FindPath_unfold)
    qed
  qed
qed

text \<open>
  C4. When the features of \<open>s\<close> can be fetched and have the onion-message bit,
  \<open>FindPath\<close> from \<open>s\<close> to \<open>s\<close> succeeds with an empty hop list, for every cap
  (the non-negative ones included).
\<close>

theorem FindPath_to_self:
  assumes "FetchNodeFeatures graph s = Inr fv" and "HasFeature fv OnionMessagesOptional"
  shows "FindPath graph s s maxHops = Some (Inr \<lparr>Hops = []\<rparr>)"
  using assms by (simp add: FindPath_def)

theorem FindPath_to_self_witness:
  "FetchNodeFeatures selfGraph (vertexFromByte 1) = Inr onionFeatures
   \<and> HasFeature onionFeatures OnionMessagesOptional
   \<and> FindPath selfGraph (vertexFromByte 1) (vertexFromByte 1) 0 = Some (Inr \<lparr>Hops = []\<rparr>)"
proof -
  have a: "FetchNodeFeatures selfGraph (vertexFromByte 1) = Inr onionFeatures"
    by (simp add: selfGraph_def mockGraph_def addNode_def newMockNodeTraverser_def)
  have b: "HasFeature onionFeatures OnionMessagesOptional"
    by (simp add: HasFeature_def onionFeatures_def)
  from FindPath_to_self[OF a b, of 0] a b show ?thesis by simp
qed

text \<open>
  C3, as the code has it. The destination is checked first: when fetching its
  features fails, \<open>FindPath\<close> returns that very error of the adapter (the code
  has no error of its own for an unknown destination), and when the features
  lack the onion-message bit it returns \<open>ErrDestinationNoOnionSupport\<close>. Both
  hold whatever the channels and the traversal of the graph are, so also when
  the destination is a direct neighbour of the source.
\<close>

theorem FindPath_checks_destination_first:
  "(\<forall>cause. FetchNodeFeatures graph d = Inl cause
       \<longrightarrow> FindPath (graph\<lparr>DirectedChannels := chans, TraversalErr := terr\<rparr>) s d maxHops
             = Some (Inl (External cause)))
   \<and> (\<forall>fv. FetchNodeFeatures graph d = Inr fv \<and> \<not> HasFeature fv OnionMessagesOptional
       \<longrightarrow> FindPath (graph\<lparr>DirectedChannels := chans, TraversalErr := terr\<rparr>) s d maxHops
             = Some (Inl ErrDestinationNoOnionSupport))"
  by (simp add: FindPath_def)


theorem FindPath_checks_destination_first_witness:
  "FindPath notInGraph (vertexFromByte 1) (vertexFromByte 2) 20 = Some (Inl (External ''node not found''))
   \<and> vertexFromByte 2 \<in> set (DirectedChannels noSupportGraph (vertexFromByte 1))
   \<and> FindPath noSupportGraph (vertexFromByte 1) (vertexFromByte 2) 20
       = Some (Inl ErrDestinationNoOnionSupport)"
proof -
  have a: "FetchNodeFeatures notInGraph (vertexFromByte 2) = Inl ''node not found''"
    by (simp add: notInGraph_def mock_simps)
  have b: "FetchNodeFeatures noSupportGraph (vertexFromByte 2) = Inr emptyFeatures
             \<and> \<not> HasFeature emptyFeatures OnionMessagesOptional"
    by (simp add: noSupportGraph_def mock_simps)
  have c: "vertexFromByte 2 \<in> set (DirectedChannels noSupportGraph (vertexFromByte 1))"
    by (simp add: noSupportGraph_def mock_simps)
  from FindPath_checks_destination_first[where graph = notInGraph and d = "vertexFromByte 2"
      and chans = "DirectedChannels notInGraph" and terr = "TraversalErr notInGraph"
      and s = "vertexFromByte 1" and maxHops = 20] a
  have "FindPath notInGraph (vertexFromByte 1) (vertexFromByte 2) 20
          = Some (Inl (External ''node not found''))"
    by simp
  moreover
  from FindPath_checks_destination_first[where graph = noSupportGraph and d = "vertexFromByte 2"
      and chans = "DirectedChannels noSupportGraph" and terr = "TraversalErr noSupportGraph"
      and s = "vertexFromByte 1" and maxHops = 20] b
  have "FindPath noSupportGraph (vertexFromByte 1) (vertexFromByte 2) 20
          = Some (Inl ErrDestinationNoOnionSupport)"
    by simp
  ultimately show ?thesis using c by simp
qed

text \<open>
  C3 as it is written names one error, DestinationUnknown, for a failed fetch.
  The error returned is the adapter's own: two adapters that fail differently
  make \<open>FindPath\<close> return different errors.
\<close>

theorem FindPath_fetch_error_counterexample:
  "FindPath notInGraph (vertexFromByte 1) (vertexFromByte 2) 20
     = Some (Inl (External ''node not found''))
   \<and> FindPath closedGraph (vertexFromByte 1) (vertexFromByte 2) 20
     = Some (Inl (External ''database closed''))
   \<and> FindPath notInGraph (vertexFromByte 1) (vertexFromByte 2) 20
     \<noteq> FindPath closedGraph (vertexFromByte 1) (vertexFromByte 2) 20"
  by (simp add: notInGraph_def closedGraph_def mock_simps FindPath_def)

lemma supportsOnionMessages_frame:
  "supportsOnionMessages graph node st = (b, st1) \<Longrightarrow>
     parent st1 = parent st \<and> visited st1 = visited st \<and> nextQueue st1 = nextQueue st"
  by (cases "featureCache st node"; cases "FetchNodeFeatures graph node")
     (auto simp: supportsOnionMessages_def Let_def)

lemma visit_parent:
  assumes "visit graph d cur nb st0 = (r, st1)" and "parent st1 \<noteq> parent st0"
  shows "nb \<notin> visited st0 \<and> parent st1 = (parent st0)(nb \<mapsto> cur)"
proof (cases "nb \<in> visited st0")
  case True
  with assms show ?thesis by (simp add: visit_def)
next
  case False
  obtain b st2 where so: "supportsOnionMessages graph nb st0 = (b, st2)"
    by (cases "supportsOnionMessages graph nb st0")
  note fr = supportsOnionMessages_frame[OF so]
  show ?thesis
    using assms False so fr by (cases b) (auto simp: visit_def Let_def split: if_splits)
qed

text \<open>
  C10. \<open>FindPath\<close> always returns. The visitor writes the parent map only at a
  neighbour that is not visited yet. When the search ends with the destination
  found, every vertex in the parent map is linked to the source by a chain of
  parent entries through pairwise distinct vertices, and the walk of
  \<open>reconstructPath\<close> from the destination ends with a path of distinct
  vertices, all of them keys of the parent map.
\<close>

theorem reconstructPath_terminates:
  "(\<exists>r. FindPath graph s d maxHops = Some r)
   \<and> (\<forall>r st1. visit graph d cur nb st0 = (r, st1) \<and> parent st1 \<noteq> parent st0
         \<longrightarrow> nb \<notin> visited st0 \<and> parent st1 = (parent st0)(nb \<mapsto> cur))
   \<and> (supports graph d \<and> s \<noteq> d \<and> bfsLoop graph d maxHops [s] 0 (initialBfs s d) = Inr st
         \<longrightarrow> (\<forall>v\<in>dom (parent st).
                 \<exists>hops. linked (parent st) s hops \<and> last (s # hops) = v \<and> distinct (s # hops))
             \<and> (\<exists>path. walkParents (parent st) s d [] = Some path \<and> distinct (s # path)
                   \<and> set path \<subseteq> dom (parent st)))"
proof (intro conjI allI impI)
  show "\<exists>r. FindPath graph s d maxHops = Some r" by (rule FindPath_returns)
next
  fix r st1
  assume "visit graph d cur nb st0 = (r, st1) \<and> parent st1 \<noteq> parent st0"
  then show "nb \<notin> visited st0" "parent st1 = (parent st0)(nb \<mapsto> cur)"
    using visit_parent by blast+
next
  assume a: "supports graph d \<and> s \<noteq> d \<and> bfsLoop graph d maxHops [s] 0 (initialBfs s d) = Inr st"
  have q: "set [s] \<subseteq> visited (initialBfs s d)" by (simp add: initialBfs_def)
  have z: "(0::int) = int 0" by simp
  from bfsLoop_inv[OF bfsInv_initial q z, where d = d and maxHops = maxHops and graph = graph] a
  obtain n where n: "bfsInv graph s n st" "d \<in> visited st" by auto
  show "\<forall>v\<in>dom (parent st).
          \<exists>hops. linked (parent st) s hops \<and> last (s # hops) = v \<and> distinct (s # hops)"
  proof
    fix v assume "v \<in> dom (parent st)"
    with n(1) have "treePath graph s st n v" by (auto simp: bfsInv_def)
    then show "\<exists>hops. linked (parent st) s hops \<and> last (s # hops) = v \<and> distinct (s # hops)"
      unfolding treePath_def by blast
  qed
  from n have "treePath graph s st n d" by (simp add: bfsInv_def)
  then obtain h where h: "linked (parent st) s h" "last (s # h) = d" "distinct (s # h)"
    unfolding treePath_def by blast
  have "walkParents (parent st) s d [] = Some (rev h)"
    using walkParents_linked[OF h(1), of "[]"] h(2,3) by simp
  moreover have "distinct (s # rev h)" using h(3) by simp
  moreover have "set (rev h) \<subseteq> dom (parent st)" using linked_dom[OF h(1)] by simp
  ultimately show "\<exists>path. walkParents (parent st) s d [] = Some path \<and> distinct (s # path)
                   \<and> set path \<subseteq> dom (parent st)"
    by blast
qed


lemma bfsLoop_filterGraph:
  "\<exists>st. bfsLoop filterGraph (vertexFromByte 4) 20 [vertexFromByte 1] 0
          (initialBfs (vertexFromByte 1) (vertexFromByte 4)) = Inr st"
  by (simp add: filterGraph_def mock_simps FindPath_simps)

theorem reconstructPath_terminates_witness:
  "\<exists>st. bfsLoop filterGraph (vertexFromByte 4) 20 [vertexFromByte 1] 0
          (initialBfs (vertexFromByte 1) (vertexFromByte 4)) = Inr st
      \<and> (\<exists>path. walkParents (parent st) (vertexFromByte 1) (vertexFromByte 4) [] = Some path
            \<and> distinct (vertexFromByte 1 # path) \<and> set path \<subseteq> dom (parent st))"
proof -
  from bfsLoop_filterGraph obtain st where
    st: "bfsLoop filterGraph (vertexFromByte 4) 20 [vertexFromByte 1] 0
          (initialBfs (vertexFromByte 1) (vertexFromByte 4)) = Inr st"
    by blast
  from reconstructPath_terminates[where graph = filterGraph and s = "vertexFromByte 1"
      and d = "vertexFromByte 4" and maxHops = 20 and st = st]
    filterGraph_facts(1,2) st
  have "\<exists>path. walkParents (parent st) (vertexFromByte 1) (vertexFromByte 4) [] = Some path
            \<and> distinct (vertexFromByte 1 # path) \<and> set path \<subseteq> dom (parent st)"
    by blast
  with st show ?thesis by blast
qed

lemma bfsLoop_not_sentinel:
  assumes "supports graph d"
  shows "bfsLoop graph d maxHops [s] 0 (initialBfs s d) \<noteq> Inl errBFSDone"
proof -
  have q: "set [s] \<subseteq> visited (initialBfs s d)" by (simp add: initialBfs_def)
  have z: "(0::int) = int 0" by simp
  from bfsLoop_inv[OF bfsInv_initial[OF assms] q z, where d = d and maxHops = maxHops]
  show ?thesis by (auto split: sum.splits)
qed

text \<open>
  C9. \<open>FindPath\<close> never returns \<open>errBFSDone\<close>. When the traversal of a node
  ends with the sentinel, the level is left as \<open>Found\<close>, the loop ends with the
  maps of that moment, and \<open>FindPath\<close> returns a path. When the traversal ends
  with any other error, the level is left as \<open>Failed\<close> with that error, and
  \<open>FindPath\<close> returns it as an error.
\<close>

theorem errBFSDone_stays_internal:
  "FindPath graph s d maxHops \<noteq> Some (Inl errBFSDone)
   \<and> (\<forall>st1. ForEachNodeDirectedChannel graph cur (visit graph d cur) st = (Some errBFSDone, st1)
         \<longrightarrow> expandLevel graph d (cur # queue) st = Found st1)
   \<and> (\<forall>err st1. ForEachNodeDirectedChannel graph cur (visit graph d cur) st = (Some err, st1)
           \<and> err \<noteq> errBFSDone
         \<longrightarrow> expandLevel graph d (cur # queue) st = Failed err)
   \<and> (frontier \<noteq> [] \<and> depth + 1 \<le> maxHops
         \<longrightarrow> (case expandLevel graph d frontier (st0\<lparr>nextQueue := []\<rparr>) of
                Found st1 \<Rightarrow> bfsLoop graph d maxHops frontier depth st0 = Inr st1
              | Failed err \<Rightarrow> bfsLoop graph d maxHops frontier depth st0 = Inl err
              | NextLevel st1 \<Rightarrow>
                  bfsLoop graph d maxHops frontier depth st0
                    = bfsLoop graph d maxHops (nextQueue st1) (depth + 1) st1))
   \<and> (supports graph d \<and> s \<noteq> d
         \<longrightarrow> (case bfsLoop graph d maxHops [s] 0 (initialBfs s d) of
                Inr st1 \<Rightarrow> (\<exists>path. FindPath graph s d maxHops = Some (Inr path))
              | Inl err \<Rightarrow> FindPath graph s d maxHops = Some (Inl err) \<and> err \<noteq> errBFSDone))"
proof (intro conjI allI impI)
  show "FindPath graph s d maxHops \<noteq> Some (Inl errBFSDone)"
    using FindPath_errors[of graph s d maxHops errBFSDone] by auto
next
  fix st1
  assume "ForEachNodeDirectedChannel graph cur (visit graph d cur) st = (Some errBFSDone, st1)"
  then show "expandLevel graph d (cur # queue) st = Found st1" by simp
next
  fix err st1
  assume "ForEachNodeDirectedChannel graph cur (visit graph d cur) st = (Some err, st1)
            \<and> err \<noteq> errBFSDone"
  then show "expandLevel graph d (cur # queue) st = Failed err" by simp
next
  assume "frontier \<noteq> [] \<and> depth + 1 \<le> maxHops"
  then show "case expandLevel graph d frontier (st0\<lparr>nextQueue := []\<rparr>) of
                Found st1 \<Rightarrow> bfsLoop graph d maxHops frontier depth st0 = Inr st1
              | Failed err \<Rightarrow> bfsLoop graph d maxHops frontier depth st0 = Inl err
              | NextLevel st1 \<Rightarrow>
                  bfsLoop graph d maxHops frontier depth st0
                    = bfsLoop graph d maxHops (nextQueue st1) (depth + 1) st1"
    by (subst bfsLoop.simps, subst (2) bfsLoop.simps, subst (3) bfsLoop.simps)
       (simp split: level.splits)
next
  assume a: "supports graph d \<and> s \<noteq> d"
  then obtain fv where fv: "FetchNodeFeatures graph d = Inr fv"
    by (cases "FetchNodeFeatures graph d") (simp_all add: supports_def)
  show "case bfsLoop graph d maxHops [s] 0 (initialBfs s d) of
          Inr st1 \<Rightarrow> (\<exists>path. FindPath graph s d maxHops = Some (Inr path))
        | Inl err \<Rightarrow> FindPath graph s d maxHops = Some (Inl err) \<and> err \<noteq> errBFSDone"
  proof (cases "bfsLoop graph d maxHops [s] 0 (initialBfs s d)")
    case (Inl err)
    with bfsLoop_not_sentinel[of graph d maxHops s] a fv show ?thesis
      by (auto simp: FindPath_unfold)
  next
    case st: (Inr st1)
    from bfsLoop_found[OF _ _ st] a
    obtain hops where "reconstructPath (parent st1) s d = Some \<lparr>Hops = hops\<rparr>"
      by blast
    with a fv st show ?thesis by (simp add: FindPath_unfold)
  qed
qed


lemma brokenGraph_facts:
  "supports brokenGraph (vertexFromByte 4)"
  "bfsLoop brokenGraph (vertexFromByte 4) 20 [vertexFromByte 1] 0
     (initialBfs (vertexFromByte 1) (vertexFromByte 4)) = Inl (External ''database closed'')"
  "fst (ForEachNodeDirectedChannel brokenGraph (vertexFromByte 1)
          (visit brokenGraph (vertexFromByte 4) (vertexFromByte 1))
          (initialBfs (vertexFromByte 1) (vertexFromByte 4))) = Some (External ''database closed'')"
  by (simp_all add: brokenGraph_def filterGraph_def mock_simps supports_def FindPath_simps)

lemma filterGraph_direct:
  "fst (ForEachNodeDirectedChannel filterGraph (vertexFromByte 1)
          (visit filterGraph (vertexFromByte 3) (vertexFromByte 1))
          (initialBfs (vertexFromByte 1) (vertexFromByte 3))) = Some errBFSDone"
  by (simp add: filterGraph_def mock_simps FindPath_simps)

theorem errBFSDone_stays_internal_witness:
  "FindPath brokenGraph (vertexFromByte 1) (vertexFromByte 4) 20
      = Some (Inl (External ''database closed''))
   \<and> expandLevel brokenGraph (vertexFromByte 4) [vertexFromByte 1]
        (initialBfs (vertexFromByte 1) (vertexFromByte 4)) = Failed (External ''database closed'')
   \<and> (\<exists>st1. expandLevel filterGraph (vertexFromByte 3) [vertexFromByte 1]
        (initialBfs (vertexFromByte 1) (vertexFromByte 3)) = Found st1)
   \<and> (\<exists>path. FindPath filterGraph (vertexFromByte 1) (vertexFromByte 4) 20 = Some (Inr path))"
proof -
  obtain st1 where f1: "ForEachNodeDirectedChannel brokenGraph (vertexFromByte 1)
          (visit brokenGraph (vertexFromByte 4) (vertexFromByte 1))
          (initialBfs (vertexFromByte 1) (vertexFromByte 4)) = (Some (External ''database closed''), st1)"
    using brokenGraph_facts(3) by (metis prod.collapse)
  obtain st2 where f2: "ForEachNodeDirectedChannel filterGraph (vertexFromByte 1)
          (visit filterGraph (vertexFromByte 3) (vertexFromByte 1))
          (initialBfs (vertexFromByte 1) (vertexFromByte 3)) = (Some errBFSDone, st2)"
    using filterGraph_direct by (metis prod.collapse)
  obtain st3 where f3: "bfsLoop filterGraph (vertexFromByte 4) 20 [vertexFromByte 1] 0
          (initialBfs (vertexFromByte 1) (vertexFromByte 4)) = Inr st3"
    using bfsLoop_filterGraph by blast
  note b = errBFSDone_stays_internal[where graph = brokenGraph and s = "vertexFromByte 1"
      and d = "vertexFromByte 4" and maxHops = 20 and cur = "vertexFromByte 1" and queue = "[]"
      and st = "initialBfs (vertexFromByte 1) (vertexFromByte 4)"]
  note c = errBFSDone_stays_internal[where graph = filterGraph and s = "vertexFromByte 1"
      and d = "vertexFromByte 3" and cur = "vertexFromByte 1" and queue = "[]"
      and st = "initialBfs (vertexFromByte 1) (vertexFromByte 3)"]
  note e = errBFSDone_stays_internal[where graph = filterGraph and s = "vertexFromByte 1"
      and d = "vertexFromByte 4" and maxHops = 20]
  have 1: "FindPath brokenGraph (vertexFromByte 1) (vertexFromByte 4) 20
      = Some (Inl (External ''database closed''))"
    using b brokenGraph_facts(1,2) by simp
  have 2: "expandLevel brokenGraph (vertexFromByte 4) [vertexFromByte 1]
        (initialBfs (vertexFromByte 1) (vertexFromByte 4)) = Failed (External ''database closed'')"
    using b f1 by blast
  have 3: "expandLevel filterGraph (vertexFromByte 3) [vertexFromByte 1]
        (initialBfs (vertexFromByte 1) (vertexFromByte 3)) = Found st2"
    using c f2 by blast
  have 4: "\<exists>path. FindPath filterGraph (vertexFromByte 1) (vertexFromByte 4) 20 = Some (Inr path)"
    using e filterGraph_facts(1,2) f3 by simp
  from 1 2 3 4 show ?thesis by blast
qed

section \<open>Properties of the builder, the dispatcher and the entry points\<close>








lemma vertexFromByte_unfold: "vertexFromByte b = b # 0 # replicate 31 0"
  by (simp add: vertexFromByte_def numeral_eq_Suc)


lemma toy_hopInfos:
  "buildHopInfos toyPrimitives 0 [vertexFromByte 2, vertexFromByte 3]
     = Inr [\<lparr>NodePub = Point 0 2, PlainText = [4, 33, 3, 0]\<rparr>, \<lparr>NodePub = Point 0 3, PlainText = []\<rparr>]"
  by (simp add: toyPrimitives_def vertexFromByte_unfold NewNonFinalBlindedRouteDataOnionMessage_def
        emptyBlindedRouteData_def)




lemma buildOnionMessageForPath_fst:
  "fst (buildOnionMessageForPath prims path replyPath tlvs w) =
     (case buildHopInfos prims 0 (Hops path) of
        Inl err \<Rightarrow> Inl err
      | Inr hopInfos \<Rightarrow>
     (case keySource w (drawn w) of
        Inl err \<Rightarrow> Inl (Wrapf ''generate session key'' (External err))
      | Inr sessionKey \<Rightarrow>
     (case BuildBlindedPath prims sessionKey hopInfos of
        Inl err \<Rightarrow> Inl (Wrapf ''build blinded path'' (External err))
      | Inr blindedPath \<Rightarrow>
     (case OnionMessageBlindedPathToSphinxPath prims (Path blindedPath) replyPath tlvs of
        Inl err \<Rightarrow> Inl (Wrapf ''convert to sphinx path'' (External err))
      | Inr sphinxPath \<Rightarrow>
     (case keySource w (drawn w + 1) of
        Inl err \<Rightarrow> Inl (Wrapf ''generate onion key'' (External err))
      | Inr onionSessionKey \<Rightarrow>
     (case NewOnionPacket prims sphinxPath onionSessionKey of
        Inl err \<Rightarrow> Inl (Wrapf ''create onion packet'' (External err))
      | Inr onionPkt \<Rightarrow>
     (case Encode prims onionPkt of
        Inl err \<Rightarrow> Inl (Wrapf ''encode onion packet'' (External err))
      | Inr buf \<Rightarrow> Inr (buf, PubKey prims (SessionKey blindedPath)))))))))"
  by (simp add: buildOnionMessageForPath_def NewPrivateKey_def split: sum.splits)

lemma buildOnionMessageForPath_Inr:
  assumes "buildOnionMessageForPath prims path replyPath tlvs w = (Inr (blob, blindingPub), w2)"
  shows "w2 = w\<lparr>drawn := drawn w + 2\<rparr>
     \<and> (\<exists>sessionKey onionSessionKey infos blindedPath sphinxPath onionPkt.
            keySource w (drawn w) = Inr sessionKey \<and> keySource w (drawn w + 1) = Inr onionSessionKey
          \<and> buildHopInfos prims 0 (Hops path) = Inr infos
          \<and> BuildBlindedPath prims sessionKey infos = Inr blindedPath
          \<and> OnionMessageBlindedPathToSphinxPath prims (Path blindedPath) replyPath tlvs = Inr sphinxPath
          \<and> NewOnionPacket prims sphinxPath onionSessionKey = Inr onionPkt
          \<and> Encode prims onionPkt = Inr blob
          \<and> blindingPub = PubKey prims (SessionKey blindedPath))"
  using assms
  by (simp add: buildOnionMessageForPath_def NewPrivateKey_def split: sum.splits)


text \<open>
  C6. The result of the builder depends on the world only through the next two
  draws of the random source: two runs with the same two draws and the same
  inputs give the same result. A successful call makes exactly two draws and
  no tell; the first scalar goes to \<open>BuildBlindedPath\<close> and the second to
  \<open>NewOnionPacket\<close>; the returned key is the public key of the session key of
  the blinded path, which is the first scalar whenever \<open>BuildBlindedPath\<close>
  records the session key it is given.
\<close>

theorem buildOnionMessageForPath_scalars:
  "(keySource w1 (drawn w1) = keySource w (drawn w)
      \<and> keySource w1 (drawn w1 + 1) = keySource w (drawn w + 1)
      \<longrightarrow> fst (buildOnionMessageForPath prims path replyPath tlvs w1)
            = fst (buildOnionMessageForPath prims path replyPath tlvs w))
   \<and> (buildOnionMessageForPath prims path replyPath tlvs w = (Inr (blob, blindingPub), w2)
      \<longrightarrow> drawn w2 = drawn w + 2 \<and> keySource w2 = keySource w \<and> told w2 = told w
        \<and> (\<exists>sessionKey onionSessionKey infos blindedPath sphinxPath onionPkt.
              keySource w (drawn w) = Inr sessionKey
            \<and> keySource w (drawn w + 1) = Inr onionSessionKey
            \<and> buildHopInfos prims 0 (Hops path) = Inr infos
            \<and> BuildBlindedPath prims sessionKey infos = Inr blindedPath
            \<and> OnionMessageBlindedPathToSphinxPath prims (Path blindedPath) replyPath tlvs
                = Inr sphinxPath
            \<and> NewOnionPacket prims sphinxPath onionSessionKey = Inr onionPkt
            \<and> Encode prims onionPkt = Inr blob
            \<and> blindingPub = PubKey prims (SessionKey blindedPath)
            \<and> ((\<forall>sk hs bp. BuildBlindedPath prims sk hs = Inr bp \<longrightarrow> SessionKey bp = sk)
                 \<longrightarrow> blindingPub = PubKey prims sessionKey)))"
proof (intro conjI impI)
  assume "keySource w1 (drawn w1) = keySource w (drawn w)
      \<and> keySource w1 (drawn w1 + 1) = keySource w (drawn w + 1)"
  then show "fst (buildOnionMessageForPath prims path replyPath tlvs w1)
            = fst (buildOnionMessageForPath prims path replyPath tlvs w)"
    by (simp only: buildOnionMessageForPath_fst)
next
  assume a: "buildOnionMessageForPath prims path replyPath tlvs w = (Inr (blob, blindingPub), w2)"
  note r = buildOnionMessageForPath_Inr[OF a]
  from r show "drawn w2 = drawn w + 2" "keySource w2 = keySource w" "told w2 = told w"
    by simp_all
  from r obtain sessionKey onionSessionKey infos blindedPath sphinxPath onionPkt where
    h: "keySource w (drawn w) = Inr sessionKey" "keySource w (drawn w + 1) = Inr onionSessionKey"
       "buildHopInfos prims 0 (Hops path) = Inr infos"
       "BuildBlindedPath prims sessionKey infos = Inr blindedPath"
       "OnionMessageBlindedPathToSphinxPath prims (Path blindedPath) replyPath tlvs = Inr sphinxPath"
       "NewOnionPacket prims sphinxPath onionSessionKey = Inr onionPkt"
       "Encode prims onionPkt = Inr blob"
       "blindingPub = PubKey prims (SessionKey blindedPath)"
    by blast
  have "(\<forall>sk hs bp. BuildBlindedPath prims sk hs = Inr bp \<longrightarrow> SessionKey bp = sk)
          \<longrightarrow> blindingPub = PubKey prims sessionKey"
    using h(4,8) by blast
  with h show "\<exists>sessionKey onionSessionKey infos blindedPath sphinxPath onionPkt.
              keySource w (drawn w) = Inr sessionKey
            \<and> keySource w (drawn w + 1) = Inr onionSessionKey
            \<and> buildHopInfos prims 0 (Hops path) = Inr infos
            \<and> BuildBlindedPath prims sessionKey infos = Inr blindedPath
            \<and> OnionMessageBlindedPathToSphinxPath prims (Path blindedPath) replyPath tlvs
                = Inr sphinxPath
            \<and> NewOnionPacket prims sphinxPath onionSessionKey = Inr onionPkt
            \<and> Encode prims onionPkt = Inr blob
            \<and> blindingPub = PubKey prims (SessionKey blindedPath)
            \<and> ((\<forall>sk hs bp. BuildBlindedPath prims sk hs = Inr bp \<longrightarrow> SessionKey bp = sk)
                 \<longrightarrow> blindingPub = PubKey prims sessionKey)"
    by blast
qed


lemma toy_fields:
  "PubKey toyPrimitives sk = (if sk = 7 then Point 7 2 else if sk = 8 then Point 8 2 else Point 0 2)"
  "BuildBlindedPath toyPrimitives sk infos =
     (if infos = [] then Inl ''no hops'' else Inr \<lparr>Path = infos, SessionKey = sk\<rparr>)"
  "OnionMessageBlindedPathToSphinxPath toyPrimitives bp reply tlvs =
     Inr (concat (map PlainText bp) @ concat (map Value tlvs))"
  "NewOnionPacket toyPrimitives pp sk = Inr ((if sk = 8 then 8 else 0) # pp)"
  "Encode toyPrimitives pkt = Inr pkt"
  by (simp_all add: toyPrimitives_def)

lemma toy_build:
  "buildOnionMessageForPath toyPrimitives \<lparr>Hops = [vertexFromByte 2, vertexFromByte 3]\<rparr> None []
     toyWorld = (Inr ([8, 4, 33, 3, 0], Point 7 2), toyWorld\<lparr>drawn := 2\<rparr>)"
  unfolding buildOnionMessageForPath_def OnionMessagePath.simps toy_hopInfos
  by (simp add: NewPrivateKey_def toyWorld_def toy_fields)

lemma toy_contract:
  "\<forall>sk hs bp. BuildBlindedPath toyPrimitives sk hs = Inr bp \<longrightarrow> SessionKey bp = sk"
  by (auto simp: toy_fields split: if_splits)

lemma toy_draws:
  "keySource laterWorld (drawn laterWorld) = keySource toyWorld (drawn toyWorld)
    \<and> keySource laterWorld (drawn laterWorld + 1) = keySource toyWorld (drawn toyWorld + 1)"
  "keySource toyWorld (drawn toyWorld) = Inr 7"
  by (simp_all add: laterWorld_def toyWorld_def toy_fields)

theorem buildOnionMessageForPath_scalars_witness:
  "fst (buildOnionMessageForPath toyPrimitives \<lparr>Hops = [vertexFromByte 2, vertexFromByte 3]\<rparr>
          None [] laterWorld) = Inr ([8, 4, 33, 3, 0], Point 7 2)
   \<and> PubKey toyPrimitives 7 = Point 7 2
   \<and> PubKey toyPrimitives 7 \<noteq> PubKey toyPrimitives 8
   \<and> drawn (toyWorld\<lparr>drawn := 2\<rparr>) = drawn toyWorld + 2"
proof -
  note t = buildOnionMessageForPath_scalars[where prims = toyPrimitives
      and path = "\<lparr>Hops = [vertexFromByte 2, vertexFromByte 3]\<rparr>" and replyPath = None
      and tlvs = "[]" and w = toyWorld and ?w1.0 = laterWorld and ?w2.0 = "toyWorld\<lparr>drawn := 2\<rparr>"
      and blob = "[8, 4, 33, 3, 0]" and blindingPub = "Point 7 2"]
  from t toy_draws(1) toy_build
  have 1: "fst (buildOnionMessageForPath toyPrimitives
                  \<lparr>Hops = [vertexFromByte 2, vertexFromByte 3]\<rparr> None [] laterWorld)
             = Inr ([8, 4, 33, 3, 0], Point 7 2)"
    by simp
  from t toy_build toy_contract toy_draws(2)
  have 2: "PubKey toyPrimitives 7 = Point 7 2"
    by auto
  from t toy_build
  have 3: "drawn (toyWorld\<lparr>drawn := 2\<rparr>) = drawn toyWorld + 2"
    by blast
  have 4: "PubKey toyPrimitives 7 \<noteq> PubKey toyPrimitives 8"
    by (simp add: toy_fields)
  from 1 2 3 4 show ?thesis by blast
qed

text \<open>
  C7. \<open>SendToDestination\<close> fails with "path to self is not supported" when the
  path found is empty, and \<open>SendDirectToDestination\<close> fails with "path must
  have at least one hop" when the given path is empty; in both cases the world
  is unchanged: no scalar is drawn and no actor is told, whatever the
  primitives are.
\<close>

theorem empty_path_rejected:
  "(FindPath (Graph cfg) (OurPubKey cfg) destination (MaxHops cfg) = Some (Inr path)
      \<and> Hops path = []
      \<longrightarrow> SendToDestination prims cfg destination tlvs replyPath w
            = Some (Inl (Errorf ''path to self is not supported''), w))
   \<and> (Hops path = []
      \<longrightarrow> SendDirectToDestination prims cfg path tlvs replyPath w
            = (Inl (Errorf ''path must have at least one hop''), w))"
  by (simp add: SendToDestination_def SendDirectToDestination_def)

theorem empty_path_rejected_witness:
  "SendToDestination toyPrimitives toyConfig (vertexFromByte 1) [] None toyWorld
     = Some (Inl (Errorf ''path to self is not supported''), toyWorld)
   \<and> SendDirectToDestination toyPrimitives toyConfig \<lparr>Hops = []\<rparr> [] None toyWorld
     = (Inl (Errorf ''path must have at least one hop''), toyWorld)"
proof -
  have f: "FindPath (Graph toyConfig) (OurPubKey toyConfig) (vertexFromByte 1) (MaxHops toyConfig)
             = Some (Inr \<lparr>Hops = []\<rparr>)"
    by (simp add: toyConfig_def FindPath_selfGraph)
  from empty_path_rejected[where cfg = toyConfig and destination = "vertexFromByte 1"
      and path = "\<lparr>Hops = []\<rparr>" and prims = toyPrimitives and tlvs = "[]" and replyPath = None
      and w = toyWorld] f
  show ?thesis by simp
qed

text \<open>
  C8. \<open>sendToFirstHop\<close> fails with \<open>ErrPeerActorNotFound\<close> exactly when the
  receptionist has no actor for the 33-byte key of the first hop, and then
  tells nobody. When there is an actor, it is told the onion message once and
  the call succeeds. The 33-byte key of a vertex is the vertex itself.
\<close>

theorem sendToFirstHop_dispatch:
  "(fst (sendToFirstHop receptionist firstHop blindingKey onionBlob w) = Inl ErrPeerActorNotFound
      \<longleftrightarrow> findPeerActor receptionist (copy33 firstHop) = None)
   \<and> (findPeerActor receptionist (copy33 firstHop) = None
      \<longrightarrow> sendToFirstHop receptionist firstHop blindingKey onionBlob w
            = (Inl ErrPeerActorNotFound, w))
   \<and> (\<forall>actorRef. findPeerActor receptionist (copy33 firstHop) = Some actorRef
      \<longrightarrow> sendToFirstHop receptionist firstHop blindingKey onionBlob w
            = (Inr (), w\<lparr>told := told w @
                 [(actorRef, \<lparr>msg = \<lparr>PathKey = blindingKey, OnionBlob = onionBlob\<rparr>\<rparr>)]\<rparr>))
   \<and> (length firstHop = 33 \<longrightarrow> copy33 firstHop = firstHop)"
  by (auto simp: sendToFirstHop_def Tell_def NewOnionMessage_def copy33_def Let_def
           split: option.splits)

lemma copy33_vertexFromByte: "copy33 (vertexFromByte b) = vertexFromByte b"
  by (simp add: copy33_def vertexFromByte_def)

theorem sendToFirstHop_dispatch_witness:
  "sendToFirstHop (Receptionist toyConfig) (vertexFromByte 3) (Point 7 2) [8, 4] toyWorld
     = (Inl ErrPeerActorNotFound, toyWorld)
   \<and> sendToFirstHop (Receptionist toyConfig) (vertexFromByte 2) (Point 7 2) [8, 4] toyWorld
     = (Inr (), toyWorld\<lparr>told := told toyWorld @
          [(5, \<lparr>msg = \<lparr>PathKey = Point 7 2, OnionBlob = [8, 4]\<rparr>\<rparr>)]\<rparr>)
   \<and> copy33 (vertexFromByte 2) = vertexFromByte 2"
proof -
  have a: "findPeerActor (Receptionist toyConfig) (copy33 (vertexFromByte 3)) = None"
    by (simp add: findPeerActor_def toyConfig_def copy33_vertexFromByte)
  have b: "findPeerActor (Receptionist toyConfig) (copy33 (vertexFromByte 2)) = Some 5"
    by (simp add: findPeerActor_def toyConfig_def copy33_vertexFromByte)
  have c: "length (vertexFromByte 2) = 33" by (simp add: vertexFromByte_def)
  from sendToFirstHop_dispatch[where receptionist = "Receptionist toyConfig"
      and firstHop = "vertexFromByte 3" and blindingKey = "Point 7 2" and onionBlob = "[8, 4]"
      and w = toyWorld] a
  have 1: "sendToFirstHop (Receptionist toyConfig) (vertexFromByte 3) (Point 7 2) [8, 4] toyWorld
     = (Inl ErrPeerActorNotFound, toyWorld)"
    by blast
  from sendToFirstHop_dispatch[where receptionist = "Receptionist toyConfig"
      and firstHop = "vertexFromByte 2" and blindingKey = "Point 7 2" and onionBlob = "[8, 4]"
      and w = toyWorld] b c
  have 2: "sendToFirstHop (Receptionist toyConfig) (vertexFromByte 2) (Point 7 2) [8, 4] toyWorld
     = (Inr (), toyWorld\<lparr>told := told toyWorld @
          [(5, \<lparr>msg = \<lparr>PathKey = Point 7 2, OnionBlob = [8, 4]\<rparr>\<rparr>)]\<rparr>)"
    "copy33 (vertexFromByte 2) = vertexFromByte 2"
    by blast+
  from 1 2 show ?thesis by simp
qed

end
